theory Spec2Isabelle
  imports Complex_Main "HOL-Library.Log_Nat"
begin

section \<open>Python values\<close>

text \<open>
  A Python \<open>str\<close> is a sequence of Unicode code points; it is modelled as the list of
  its code points, so that \<open>len\<close> counts what Python counts.  \<open>py\<close> turns a
  literal of the theory into such a sequence.
\<close>

type_synonym pystr = "nat list"

definition py :: "string \<Rightarrow> pystr" where
  "py s = map of_char s"

text \<open>The exceptions that the modelled functions can raise.\<close>

datatype error = TypeError | ValueError | OverflowError | KeyError | ZeroDivisionError

text \<open>
  A Python \<open>float\<close> is an IEEE 754 binary64 value.  A finite value other than
  negative zero is carried as the rational number it denotes (\<open>Fin 0\<close> is positive zero).
\<close>

datatype pyfloat = Fin rat | NegZero | PosInf | NegInf | NaN

text \<open>
  The values that JSON decoding produces and that the dictionaries handed to the validators
  hold.  A \<open>dict\<close> is the list of its items in insertion order.
\<close>

datatype pyval =
    VNone
  | VBool bool
  | VInt int
  | VFloat pyfloat
  | VStr pystr
  | VList "pyval list"
  | VDict "(pystr \<times> pyval) list"

text \<open>Truth value testing, as \<open>if x:\<close> and \<open>not x\<close> perform it.\<close>

fun truthy :: "pyval \<Rightarrow> bool" where
  "truthy VNone = False"
| "truthy (VBool b) = b"
| "truthy (VInt n) = (n \<noteq> 0)"
| "truthy (VFloat f) = (f \<noteq> Fin 0 \<and> f \<noteq> NegZero)"
| "truthy (VStr s) = (s \<noteq> [])"
| "truthy (VList xs) = (xs \<noteq> [])"
| "truthy (VDict kvs) = (kvs \<noteq> [])"

text \<open>\<open>d[k] = v\<close>: an existing key keeps its place, a new key goes to the end.\<close>

fun dict_set :: "pystr \<Rightarrow> pyval \<Rightarrow> (pystr \<times> pyval) list \<Rightarrow> (pystr \<times> pyval) list" where
  "dict_set k v [] = [(k, v)]"
| "dict_set k v ((k', v') # kvs) =
     (if k' = k then (k, v) # kvs else (k', v') # dict_set k v kvs)"

text \<open>
  \<open>str.isspace\<close> on one code point; \<open>str.strip()\<close> and the \<open>\s\<close> of a \<open>str\<close>
  pattern both use it.
\<close>

definition is_space :: "nat \<Rightarrow> bool" where
  "is_space x \<longleftrightarrow>
     (9 \<le> x \<and> x \<le> 13) \<or> (28 \<le> x \<and> x \<le> 32) \<or> x = 133 \<or> x = 160 \<or> x = 5760
     \<or> (8192 \<le> x \<and> x \<le> 8202) \<or> x = 8232 \<or> x = 8233 \<or> x = 8239 \<or> x = 8287
     \<or> x = 12288"

definition strip :: "pystr \<Rightarrow> pystr" where
  "strip s = rev (dropWhile is_space (rev (dropWhile is_space s)))"

section \<open>Rounding to binary64\<close>

definition pow2 :: "int \<Rightarrow> rat" where
  "pow2 k = (if 0 \<le> k then 2 ^ nat k else 1 / 2 ^ nat (- k))"

definition round_half_even :: "rat \<Rightarrow> int" where
  "round_half_even q =
     (let f = \<lfloor>q\<rfloor>; r = q - of_int f
      in if r < 1 / 2 then f
         else if 1 / 2 < r then f + 1
         else if even f then f else f + 1)"

text \<open>For \<open>q > 0\<close>, the exponent \<open>e\<close> with \<open>2 ^ e \<le> q < 2 ^ (e + 1)\<close>.\<close>

definition binade :: "rat \<Rightarrow> int" where
  "binade q =
     (let k = bitlen (fst (quotient_of q)) - bitlen (snd (quotient_of q))
      in if pow2 k \<le> q then k else k - 1)"

text \<open>
  The magnitude \<open>q > 0\<close> rounded to 53 significant bits, ties to even, with the spacing
  of the subnormal numbers below \<open>2 ^ (-1022)\<close>.
\<close>

definition rounded :: "rat \<Rightarrow> rat" where
  "rounded q =
     of_int (round_half_even (q / pow2 (max (binade q) (- 1022) - 52)))
       * pow2 (max (binade q) (- 1022) - 52)"

text \<open>
  The double nearest to the magnitude \<open>q \<ge> 0\<close> with the sign \<open>neg\<close>: an infinity
  where the rounded magnitude reaches \<open>2 ^ 1024\<close>, a zero of that sign where it is zero.
  This is what \<open>float\<close> of a decimal literal and of an \<open>int\<close> compute.
\<close>

definition round_double :: "bool \<Rightarrow> rat \<Rightarrow> pyfloat" where
  "round_double neg q =
     (if q = 0 then (if neg then NegZero else Fin 0)
      else if pow2 1024 \<le> rounded q then (if neg then NegInf else PosInf)
      else if rounded q = 0 then (if neg then NegZero else Fin 0)
      else Fin (if neg then - rounded q else rounded q))"

text \<open>\<open>float(n)\<close> for an \<open>int\<close>: OverflowError where the rounded value is not finite.\<close>

definition float_of_int :: "int \<Rightarrow> error + pyfloat" where
  "float_of_int n =
     (case round_double (n < 0) (of_int \<bar>n\<bar>) of
        PosInf \<Rightarrow> Inl OverflowError
      | NegInf \<Rightarrow> Inl OverflowError
      | f \<Rightarrow> Inr f)"

section \<open>Arithmetic on numbers\<close>

text \<open>The elements of a \<open>List[Union[int, float]]\<close>.\<close>

datatype number = NInt int | NFloat pyfloat





text \<open>
  Comparison of numbers is exact, also between an \<open>int\<close> and a \<open>float\<close>; every
  comparison with a NaN is false.  A number that is not a NaN is placed by the pair of
  its class (below, among or above the finite values) and its value.
\<close>

definition num_key :: "number \<Rightarrow> (int \<times> rat) option" where
  "num_key x =
     (case x of
        NInt n \<Rightarrow> Some (0, of_int n)
      | NFloat f \<Rightarrow>
          (case f of
             Fin r \<Rightarrow> Some (0, r)
           | NegZero \<Rightarrow> Some (0, 0)
           | PosInf \<Rightarrow> Some (1, 0)
           | NegInf \<Rightarrow> Some (- 1, 0)
           | NaN \<Rightarrow> None))"

definition num_less :: "number \<Rightarrow> number \<Rightarrow> bool" where
  "num_less x y =
     (case (num_key x, num_key y) of
        (Some (c, r), Some (d, q)) \<Rightarrow> c < d \<or> (c = d \<and> r < q)
      | _ \<Rightarrow> False)"







text \<open>
  \<open>min\<close> and \<open>max\<close> keep the first item and replace it by a later one that is
  less, respectively greater; on an empty list they raise ValueError.
\<close>

fun min_from :: "number \<Rightarrow> number list \<Rightarrow> number" where
  "min_from m [] = m"
| "min_from m (x # xs) = min_from (if num_less x m then x else m) xs"

fun max_from :: "number \<Rightarrow> number list \<Rightarrow> number" where
  "max_from m [] = m"
| "max_from m (x # xs) = max_from (if num_less m x then x else m) xs"



section \<open>Formatting\<close>

function dec_digits :: "nat \<Rightarrow> pystr" where
  "dec_digits n = (if n < 10 then [48 + n] else dec_digits (n div 10) @ [48 + n mod 10])"
  by pat_completeness auto
termination
  by (relation "measure id") auto

declare dec_digits.simps [simp del]

text \<open>
  The format specification \<open>.2f\<close> on a \<open>float\<close>: the decimal with two places nearest to
  the exact value of the double, ties to even, with the sign of the value.
\<close>

definition format_2f :: "pyfloat \<Rightarrow> pystr" where
  "format_2f f =
     (case f of
        NaN \<Rightarrow> py ''nan''
      | PosInf \<Rightarrow> py ''inf''
      | NegInf \<Rightarrow> py ''-inf''
      | NegZero \<Rightarrow> py ''-0.00''
      | Fin r \<Rightarrow>
          (let n = nat (round_half_even (\<bar>r\<bar> * 100))
           in (if r < 0 then py ''-'' else []) @ dec_digits (n div 100) @ py ''.''
                @ [48 + (n mod 100) div 10, 48 + n mod 10]))"

text \<open>
  \<^verbatim>\<open>
  def format_price(price, currency="$"):
      return f"{currency}{price:.2f}"
  \<close>
  An \<open>int\<close> (and a \<open>bool\<close>) is converted to \<open>float\<close> by the format; a \<open>str\<close> has no
  format code \<open>f\<close> (ValueError), and the other values accept no format specification
  (TypeError).
\<close>

definition format_price :: "pyval \<Rightarrow> pystr \<Rightarrow> error + pystr" where
  "format_price price currency =
     (case price of
        VFloat f \<Rightarrow> Inr (currency @ format_2f f)
      | VInt n \<Rightarrow>
          (case float_of_int n of Inl e \<Rightarrow> Inl e | Inr f \<Rightarrow> Inr (currency @ format_2f f))
      | VBool b \<Rightarrow>
          (case float_of_int (if b then 1 else 0) of
             Inl e \<Rightarrow> Inl e
           | Inr f \<Rightarrow> Inr (currency @ format_2f f))
      | VStr s \<Rightarrow> Inl ValueError
      | _ \<Rightarrow> Inl TypeError)"

section \<open>Statistics\<close>




definition int_of :: "number \<Rightarrow> int" where
  "int_of x = (case x of NInt n \<Rightarrow> n | NFloat f \<Rightarrow> 0)"

section \<open>Validation functions\<close>

text \<open>\<open>d[k]\<close> on a dictionary.\<close>

definition getitem :: "(pystr \<times> pyval) list \<Rightarrow> pystr \<Rightarrow> error + pyval" where
  "getitem d k = (case map_of d k of None \<Rightarrow> Inl KeyError | Some v \<Rightarrow> Inr v)"

text \<open>The first of the fields that is not a key of the dictionary.\<close>

fun first_missing :: "pystr list \<Rightarrow> (pystr \<times> pyval) list \<Rightarrow> pystr option" where
  "first_missing [] d = None"
| "first_missing (f # fs) d = (if map_of d f = None then Some f else first_missing fs d)"

text \<open>
  \<open>not str(v).strip()\<close>.  \<open>str\<close> of a string is the string; \<open>str\<close> of any other
  value of the model (\<open>None\<close>, \<open>True\<close>, \<open>12\<close>, \<open>1.5\<close>, \<open>[...]\<close>, \<open>{...}\<close>)
  has a character that is not whitespace.
\<close>

definition str_is_blank :: "pyval \<Rightarrow> bool" where
  "str_is_blank v = (case v of VStr s \<Rightarrow> strip s = [] | _ \<Rightarrow> False)"

text \<open>
  \<open>float(v)\<close>.  On a string it is Python's parser of numeric literals, which is not part
  of the repository: it is the parameter \<open>float_of_str\<close>, None standing for ValueError.
\<close>

definition to_float :: "(pystr \<Rightarrow> pyfloat option) \<Rightarrow> pyval \<Rightarrow> error + pyfloat" where
  "to_float float_of_str v =
     (case v of
        VFloat f \<Rightarrow> Inr f
      | VInt n \<Rightarrow> float_of_int n
      | VBool b \<Rightarrow> float_of_int (if b then 1 else 0)
      | VStr s \<Rightarrow> (case float_of_str s of None \<Rightarrow> Inl ValueError | Some f \<Rightarrow> Inr f)
      | _ \<Rightarrow> Inl TypeError)"

text \<open>
  \<^verbatim>\<open>
  def validate_product_data(product):
      required_fields = ['id', 'name', 'price', 'category', 'image_path']
      for field in required_fields:
          if field not in product:
              return False, f"Missing required field: {field}"
      if not product['name'] or not str(product['name']).strip():
          return False, "Product name cannot be empty"
      try:
          price = float(product['price'])
          if price < 0:
              return False, "Price cannot be negative"
      except (ValueError, TypeError):
          return False, "Price must be a valid number"
      if not product['image_path'] or not str(product['image_path']).strip():
          return False, "Image path cannot be empty"
      return True, None
  \<close>
  The result is the pair, or the exception that leaves the function.
\<close>

definition product_required_fields :: "pystr list" where
  "product_required_fields = [py ''id'', py ''name'', py ''price'', py ''category'', py ''image_path'']"

definition validate_product_data ::
    "(pystr \<Rightarrow> pyfloat option) \<Rightarrow> (pystr \<times> pyval) list \<Rightarrow> error + (bool \<times> pystr option)" where
  "validate_product_data float_of_str product =
     (case first_missing product_required_fields product of
        Some field \<Rightarrow> Inr (False, Some (py ''Missing required field: '' @ field))
      | None \<Rightarrow>
          (case getitem product (py ''name'') of
             Inl e \<Rightarrow> Inl e
           | Inr name \<Rightarrow>
               if \<not> truthy name \<or> str_is_blank name
               then Inr (False, Some (py ''Product name cannot be empty''))
               else
                 (case getitem product (py ''price'') of
                    Inl e \<Rightarrow> Inl e
                  | Inr p \<Rightarrow>
                      (case to_float float_of_str p of
                         Inl ValueError \<Rightarrow> Inr (False, Some (py ''Price must be a valid number''))
                       | Inl TypeError \<Rightarrow> Inr (False, Some (py ''Price must be a valid number''))
                       | Inl e \<Rightarrow> Inl e
                       | Inr price \<Rightarrow>
                           if num_less (NFloat price) (NInt 0)
                           then Inr (False, Some (py ''Price cannot be negative''))
                           else
                             (case getitem product (py ''image_path'') of
                                Inl e \<Rightarrow> Inl e
                              | Inr image_path \<Rightarrow>
                                  if \<not> truthy image_path \<or> str_is_blank image_path
                                  then Inr (False, Some (py ''Image path cannot be empty''))
                                  else Inr (True, None))))))"

text \<open>
  \<^verbatim>\<open>
  def validate_listing_data(data):
      required_fields = ['title', 'description', 'features', 'keywords']
      for field in required_fields:
          if field not in data:
              return False, f"Missing required field: {field}"
      if not data['title'] or len(data['title']) > 100:
          return False, "Title must be 1-100 characters"
      if not data['description'] or len(data['description']) < 50:
          return False, "Description must be at least 50 characters"
      if not isinstance(data['features'], list) or len(data['features']) == 0:
          return False, "Features must be a non-empty list"
      if not data['keywords'] or not isinstance(data['keywords'], str):
          return False, "Keywords must be a non-empty string"
      return True, None
  \<close>
  \<open>len\<close> is defined on strings, lists and dictionaries and raises TypeError on the
  other values.
\<close>

definition py_len :: "pyval \<Rightarrow> error + nat" where
  "py_len v =
     (case v of
        VStr s \<Rightarrow> Inr (length s)
      | VList xs \<Rightarrow> Inr (length xs)
      | VDict kvs \<Rightarrow> Inr (length kvs)
      | _ \<Rightarrow> Inl TypeError)"

definition is_list :: "pyval \<Rightarrow> bool" where
  "is_list v = (case v of VList xs \<Rightarrow> True | _ \<Rightarrow> False)"

definition is_str :: "pyval \<Rightarrow> bool" where
  "is_str v = (case v of VStr s \<Rightarrow> True | _ \<Rightarrow> False)"

definition listing_required_fields :: "pystr list" where
  "listing_required_fields = [py ''title'', py ''description'', py ''features'', py ''keywords'']"

text \<open>
  The two conditions that call \<open>len\<close>: \<open>not v or len(v) > 100\<close> and
  \<open>not v or len(v) < 50\<close>.  \<open>or\<close> evaluates its second operand only when the first
  is false.
\<close>

definition empty_or_longer :: "pyval \<Rightarrow> nat \<Rightarrow> error + bool" where
  "empty_or_longer v n =
     (if \<not> truthy v then Inr True
      else case py_len v of Inl e \<Rightarrow> Inl e | Inr l \<Rightarrow> Inr (n < l))"

definition empty_or_shorter :: "pyval \<Rightarrow> nat \<Rightarrow> error + bool" where
  "empty_or_shorter v n =
     (if \<not> truthy v then Inr True
      else case py_len v of Inl e \<Rightarrow> Inl e | Inr l \<Rightarrow> Inr (l < n))"

definition validate_listing_data ::
    "(pystr \<times> pyval) list \<Rightarrow> error + (bool \<times> pystr option)" where
  "validate_listing_data data =
     (case first_missing listing_required_fields data of
        Some field \<Rightarrow> Inr (False, Some (py ''Missing required field: '' @ field))
      | None \<Rightarrow>
          (case getitem data (py ''title'') of
             Inl e \<Rightarrow> Inl e
           | Inr title \<Rightarrow>
          (case empty_or_longer title 100 of
             Inl e \<Rightarrow> Inl e
           | Inr True \<Rightarrow> Inr (False, Some (py ''Title must be 1-100 characters''))
           | Inr False \<Rightarrow>
          (case getitem data (py ''description'') of
             Inl e \<Rightarrow> Inl e
           | Inr description \<Rightarrow>
          (case empty_or_shorter description 50 of
             Inl e \<Rightarrow> Inl e
           | Inr True \<Rightarrow> Inr (False, Some (py ''Description must be at least 50 characters''))
           | Inr False \<Rightarrow>
          (case getitem data (py ''features'') of
             Inl e \<Rightarrow> Inl e
           | Inr features \<Rightarrow>
               if \<not> is_list features \<or> py_len features = Inr 0
               then Inr (False, Some (py ''Features must be a non-empty list''))
               else
                 (case getitem data (py ''keywords'') of
                    Inl e \<Rightarrow> Inl e
                  | Inr keywords \<Rightarrow>
                      if \<not> truthy keywords \<or> \<not> is_str keywords
                      then Inr (False, Some (py ''Keywords must be a non-empty string''))
                      else Inr (True, None))))))))"

section \<open>Regular expression search\<close>

text \<open>
  The three patterns of the source use literal characters, \<open>\s*\<close> (greedy), \<open>.*?\<close>
  (lazy, under \<open>re.DOTALL\<close>: the dot matches every character) and one capturing group.
  A pattern is the sequence of its items; \<open>rmatch\<close> is the backtracking matcher of
  \<open>re\<close> anchored at the start of its input: a greedy star first tries one more
  character and falls back to the rest of the pattern, a lazy star first tries the rest
  of the pattern and falls back to one more character.  The third argument is the group:
  whether it is open, and the characters matched inside it so far, last first.
\<close>

datatype cclass = Chr nat | AnyChar | Space

datatype ritem = One cclass | Star cclass | LazyStar cclass | GroupOpen | GroupClose

fun cmatch :: "cclass \<Rightarrow> nat \<Rightarrow> bool" where
  "cmatch (Chr c) x = (x = c)"
| "cmatch AnyChar x = True"
| "cmatch Space x = is_space x"

definition push :: "nat \<Rightarrow> bool \<times> pystr \<Rightarrow> bool \<times> pystr" where
  "push x g = (if fst g then (True, x # snd g) else g)"

fun rmatch :: "ritem list \<Rightarrow> pystr \<Rightarrow> bool \<times> pystr \<Rightarrow> pystr option" where
  "rmatch [] s g = Some (rev (snd g))"
| "rmatch (GroupOpen # ps) s g = rmatch ps s (True, [])"
| "rmatch (GroupClose # ps) s g = rmatch ps s (False, snd g)"
| "rmatch (One c # ps) [] g = None"
| "rmatch (One c # ps) (x # xs) g = (if cmatch c x then rmatch ps xs (push x g) else None)"
| "rmatch (Star c # ps) [] g = rmatch ps [] g"
| "rmatch (Star c # ps) (x # xs) g =
     (if cmatch c x
      then (case rmatch (Star c # ps) xs (push x g) of
              Some r \<Rightarrow> Some r
            | None \<Rightarrow> rmatch ps (x # xs) g)
      else rmatch ps (x # xs) g)"
| "rmatch (LazyStar c # ps) [] g = rmatch ps [] g"
| "rmatch (LazyStar c # ps) (x # xs) g =
     (case rmatch ps (x # xs) g of
        Some r \<Rightarrow> Some r
      | None \<Rightarrow> if cmatch c x then rmatch (LazyStar c # ps) xs (push x g) else None)"

text \<open>
  \<open>re.search(pattern, text, re.DOTALL)\<close> followed by \<open>match.group(1)\<close>: the match at the
  leftmost position where the pattern matches; None where there is no match.
\<close>

fun re_search :: "ritem list \<Rightarrow> pystr \<Rightarrow> pystr option" where
  "re_search ps [] = rmatch ps [] (False, [])"
| "re_search ps (x # xs) =
     (case rmatch ps (x # xs) (False, []) of
        Some r \<Rightarrow> Some r
      | None \<Rightarrow> re_search ps xs)"

definition lit :: "string \<Rightarrow> ritem list" where
  "lit s = map (\<lambda>c. One (Chr (of_char c))) s"

text \<open>The group \<^verbatim>\<open>(\{.*?\})\<close>, which all three patterns share.\<close>

definition brace_group :: "ritem list" where
  "brace_group = [GroupOpen, One (Chr 123), LazyStar AnyChar, One (Chr 125), GroupClose]"

text \<open>
  \<^verbatim>\<open>
  patterns = [
      r'```json\s*(\{.*?\})\s*```',  # ```json {...} ```
      r'```\s*(\{.*?\})\s*```',       # ``` {...} ```
      r'(\{.*?\})',                   # Just {...}
  ]
  \<close>
\<close>

definition pattern_json_fence :: "ritem list" where
  "pattern_json_fence = lit ''```json'' @ [Star Space] @ brace_group @ [Star Space] @ lit ''```''"

definition pattern_fence :: "ritem list" where
  "pattern_fence = lit ''```'' @ [Star Space] @ brace_group @ [Star Space] @ lit ''```''"

definition pattern_braces :: "ritem list" where
  "pattern_braces = brace_group"

definition patterns :: "ritem list list" where
  "patterns = [pattern_json_fence, pattern_fence, pattern_braces]"

section \<open>JSON decoding\<close>

text \<open>
  \<open>json.loads\<close> on a \<open>str\<close>, with the default decoder: None stands for JSONDecodeError.
  The text is first cut into tokens (structural characters, and the scalars with their
  values), skipping the JSON whitespace between them; the tokens then drive a stack
  machine that builds arrays and objects.  The interpreter's resource limits (recursion
  depth, the cap on the digits of an integer literal) are not part of the model.
\<close>

definition json_ws :: "nat \<Rightarrow> bool" where
  "json_ws x \<longleftrightarrow> x = 32 \<or> x = 9 \<or> x = 10 \<or> x = 13"

definition is_digit :: "nat \<Rightarrow> bool" where
  "is_digit x \<longleftrightarrow> 48 \<le> x \<and> x \<le> 57"

definition hex_val :: "nat \<Rightarrow> nat option" where
  "hex_val x =
     (if 48 \<le> x \<and> x \<le> 57 then Some (x - 48)
      else if 97 \<le> x \<and> x \<le> 102 then Some (x - 87)
      else if 65 \<le> x \<and> x \<le> 70 then Some (x - 55)
      else None)"

fun hex4 :: "pystr \<Rightarrow> nat option" where
  "hex4 [a, b, c, d] =
     (case (hex_val a, hex_val b, hex_val c, hex_val d) of
        (Some h1, Some h2, Some h3, Some h4) \<Rightarrow> Some (((h1 * 16 + h2) * 16 + h3) * 16 + h4)
      | _ \<Rightarrow> None)"
| "hex4 _ = None"

text \<open>The character after a backslash, other than \<open>u\<close>.\<close>

definition escape_char :: "nat \<Rightarrow> nat option" where
  "escape_char e =
     (if e = 34 then Some 34
      else if e = 92 then Some 92
      else if e = 47 then Some 47
      else if e = 98 then Some 8
      else if e = 102 then Some 12
      else if e = 110 then Some 10
      else if e = 114 then Some 13
      else if e = 116 then Some 9
      else None)"

text \<open>
  The body of a string literal, after its opening quote: the decoded string and the text
  after the closing quote.  A \<open>\uXXXX\<close> escape of a high surrogate directly followed by
  the escape of a low surrogate gives the one code point of the pair; a raw control
  character is refused.
\<close>

function scanstring :: "pystr \<Rightarrow> pystr \<Rightarrow> (pystr \<times> pystr) option" where
  "scanstring acc [] = None"
| "scanstring acc (x # xs) =
     (if x = 34 then Some (rev acc, xs)
      else if x = 92 then
        (case xs of
           [] \<Rightarrow> None
         | e # es \<Rightarrow>
             if e = 117 then
               (case hex4 (take 4 es) of
                  None \<Rightarrow> None
                | Some c \<Rightarrow>
                    if 55296 \<le> c \<and> c \<le> 56319 \<and> take 2 (drop 4 es) = [92, 117] then
                      (case hex4 (take 4 (drop 6 es)) of
                         None \<Rightarrow> None
                       | Some c2 \<Rightarrow>
                           if 56320 \<le> c2 \<and> c2 \<le> 57343
                           then scanstring
                                  ((65536 + (c - 55296) * 1024 + (c2 - 56320)) # acc)
                                  (drop 10 es)
                           else scanstring (c # acc) (drop 4 es))
                    else scanstring (c # acc) (drop 4 es))
             else
               (case escape_char e of
                  None \<Rightarrow> None
                | Some c \<Rightarrow> scanstring (c # acc) es))
      else if x \<le> 31 then None
      else scanstring (x # acc) xs)"
  by pat_completeness auto
termination
  by (relation "measure (\<lambda>(acc, s). length s)") auto

definition digits_val :: "pystr \<Rightarrow> nat" where
  "digits_val ds = foldl (\<lambda>a d. 10 * a + (d - 48)) 0 ds"

text \<open>
  A number at the start of the text, as the decoder's number pattern
  \<^verbatim>\<open>(-?(?:0|[1-9][0-9]*))(\.[0-9]+)?([eE][-+]?[0-9]+)?\<close> matches it: the value and the
  text after the match.  Without fraction and exponent the value is an \<open>int\<close>, otherwise
  the \<open>float\<close> nearest to the decimal.
\<close>

definition exponent_part :: "pystr \<Rightarrow> (int \<times> pystr) option" where
  "exponent_part s =
     (case s of
        e # t \<Rightarrow>
          if e = 101 \<or> e = 69 then
            (let neg = (case t of c # _ \<Rightarrow> c = 45 | [] \<Rightarrow> False);
                 u = (case t of c # t' \<Rightarrow> if c = 45 \<or> c = 43 then t' else t | [] \<Rightarrow> t);
                 ds = takeWhile is_digit u
             in if ds = [] then None
                else Some ((if neg then - int (digits_val ds) else int (digits_val ds)),
                           dropWhile is_digit u))
          else None
      | [] \<Rightarrow> None)"

definition decimal_value :: "nat \<Rightarrow> int \<Rightarrow> rat" where
  "decimal_value m e = (if 0 \<le> e then of_nat m * 10 ^ nat e else of_nat m / 10 ^ nat (- e))"

definition match_number :: "pystr \<Rightarrow> (pyval \<times> pystr) option" where
  "match_number s =
     (let neg = (case s of c # _ \<Rightarrow> c = 45 | [] \<Rightarrow> False);
          s1 = (if neg then tl s else s)
      in case s1 of
           [] \<Rightarrow> None
         | d # ds \<Rightarrow>
             if \<not> is_digit d then None
             else
               let ip = (if d = 48 then [d] else takeWhile is_digit s1);
                   s2 = (if d = 48 then ds else dropWhile is_digit s1);
                   has_frac = (case s2 of p # f # _ \<Rightarrow> p = 46 \<and> is_digit f | _ \<Rightarrow> False);
                   fp = (if has_frac then takeWhile is_digit (tl s2) else []);
                   s3 = (if has_frac then dropWhile is_digit (tl s2) else s2);
                   ex = exponent_part s3
               in case ex of
                    None \<Rightarrow>
                      if has_frac
                      then Some (VFloat (round_double neg
                                   (decimal_value (digits_val (ip @ fp)) (- int (length fp)))), s3)
                      else Some (VInt (if neg then - int (digits_val ip) else int (digits_val ip)), s3)
                  | Some (e, s4) \<Rightarrow>
                      Some (VFloat (round_double neg
                              (decimal_value (digits_val (ip @ fp)) (e - int (length fp)))), s4))"

datatype token = TLBrace | TRBrace | TLBrack | TRBrack | TColon | TComma | TVal pyval

definition starts_with :: "string \<Rightarrow> pystr \<Rightarrow> bool" where
  "starts_with w s \<longleftrightarrow> take (length w) s = py w"

lemma scanstring_shorter:
  "scanstring acc s = Some (r, rest) \<Longrightarrow> length rest < length s"
proof (induction acc s arbitrary: r rest rule: scanstring.induct)
  case (1 acc)
  then show ?case by simp
next
  case (2 acc x xs)
  show ?case
  proof (cases "x = 34")
    case True
    with "2.prems" show ?thesis by simp
  next
    case nq: False
    show ?thesis
    proof (cases "x = 92")
      case False
      with nq "2.prems" have "scanstring (x # acc) xs = Some (r, rest)" and "\<not> x \<le> 31"
        by (auto split: if_splits)
      with nq False "2.IH"(5) show ?thesis by fastforce
    next
      case bs: True
      show ?thesis
      proof (cases xs)
        case Nil
        with bs "2.prems" show ?thesis by simp
      next
        case (Cons e es)
        show ?thesis
        proof (cases "e = 117")
          case False
          with bs Cons "2.prems" obtain c where
            c: "escape_char e = Some c" "scanstring (c # acc) es = Some (r, rest)"
            by (auto split: option.splits)
          from "2.IH"(4) [OF nq bs Cons False c(1) c(2)] Cons show ?thesis by simp
        next
          case u: True
          with bs Cons "2.prems" obtain c where c: "hex4 (take 4 es) = Some c"
            by (auto split: option.splits)
          show ?thesis
          proof (cases "55296 \<le> c \<and> c \<le> 56319 \<and> take 2 (drop 4 es) = [92, 117]")
            case False
            with bs Cons u c "2.prems" have "scanstring (c # acc) (drop 4 es) = Some (r, rest)"
              by (auto split: if_splits)
            from "2.IH"(3) [OF nq bs Cons u c False this] Cons show ?thesis by simp
          next
            case pair: True
            with bs Cons u c "2.prems" obtain c2 where
              c2: "hex4 (take 4 (drop 6 es)) = Some c2"
              by (auto split: option.splits)
            show ?thesis
            proof (cases "56320 \<le> c2 \<and> c2 \<le> 57343")
              case True
              with bs Cons u c pair c2 "2.prems" have
                "scanstring ((65536 + (c - 55296) * 1024 + (c2 - 56320)) # acc) (drop 10 es)
                   = Some (r, rest)"
                by simp
              from "2.IH"(1) [OF nq bs Cons u c pair c2 True this] Cons show ?thesis by simp
            next
              case False
              with bs Cons u c pair c2 "2.prems" have
                "scanstring (c # acc) (drop 4 es) = Some (r, rest)"
                by simp
              from "2.IH"(2) [OF nq bs Cons u c pair c2 False this] Cons show ?thesis by simp
            qed
          qed
        qed
      qed
    qed
  qed
qed

lemma length_dropWhile_tl_less:
  "s \<noteq> [] \<Longrightarrow> length (dropWhile P (tl s)) < length s"
  by (cases s) (simp_all add: le_imp_less_Suc length_dropWhile_le)

lemma exponent_part_shorter:
  "exponent_part s = Some (e, rest) \<Longrightarrow> length rest < length s"
  by (auto simp: exponent_part_def Let_def le_imp_less_Suc length_dropWhile_le
        intro: le_less_trans [OF length_dropWhile_le]
        split: list.splits if_splits)

declare scanstring.simps [simp del]

lemma match_number_shorter:
  assumes "match_number s = Some (v, rest)"
  shows "length rest < length s"
proof -
  define neg where "neg = (case s of c # _ \<Rightarrow> c = 45 | [] \<Rightarrow> False)"
  define s1 where "s1 = (if neg then tl s else s)"
  have s1: "length s1 \<le> length s" by (simp add: s1_def)
  from assms obtain d ds where ds: "s1 = d # ds" "is_digit d"
    unfolding match_number_def neg_def [symmetric] Let_def s1_def [symmetric]
    by (auto split: list.splits if_splits)
  define s2 where "s2 = (if d = 48 then ds else dropWhile is_digit s1)"
  have s2: "length s2 \<le> length ds"
    using ds by (simp add: s2_def length_dropWhile_le)
  define has_frac where "has_frac = (case s2 of p # f # _ \<Rightarrow> p = 46 \<and> is_digit f | _ \<Rightarrow> False)"
  define s3 where "s3 = (if has_frac then dropWhile is_digit (tl s2) else s2)"
  have "length (dropWhile is_digit (tl s2)) \<le> length s2"
    by (rule le_trans [OF length_dropWhile_le]) simp
  then have s3: "length s3 \<le> length s2" by (simp add: s3_def)
  have rest: "rest = s3 \<or> (\<exists>e. exponent_part s3 = Some (e, rest))"
    using assms ds
    unfolding match_number_def neg_def [symmetric] Let_def s1_def [symmetric]
    by (auto simp: s2_def s3_def has_frac_def split: option.splits if_splits)
  then have "length rest \<le> length s3"
    using exponent_part_shorter by (auto simp: less_imp_le)
  with s3 s2 ds s1 show ?thesis by simp
qed

definition cons_token :: "token \<Rightarrow> token list option \<Rightarrow> token list option" where
  "cons_token t r = (case r of None \<Rightarrow> None | Some ts \<Rightarrow> Some (t # ts))"

function json_lex :: "pystr \<Rightarrow> token list option" where
  "json_lex [] = Some []"
| "json_lex (x # xs) =
     (if json_ws x then json_lex xs
      else if x = 123 then cons_token TLBrace (json_lex xs)
      else if x = 125 then cons_token TRBrace (json_lex xs)
      else if x = 91 then cons_token TLBrack (json_lex xs)
      else if x = 93 then cons_token TRBrack (json_lex xs)
      else if x = 58 then cons_token TColon (json_lex xs)
      else if x = 44 then cons_token TComma (json_lex xs)
      else if x = 34 then
        (case scanstring [] xs of
           None \<Rightarrow> None
         | Some (str, rest) \<Rightarrow> cons_token (TVal (VStr str)) (json_lex rest))
      else if starts_with ''null'' (x # xs) then cons_token (TVal VNone) (json_lex (drop 3 xs))
      else if starts_with ''true'' (x # xs)
        then cons_token (TVal (VBool True)) (json_lex (drop 3 xs))
      else if starts_with ''false'' (x # xs)
        then cons_token (TVal (VBool False)) (json_lex (drop 4 xs))
      else if starts_with ''NaN'' (x # xs)
        then cons_token (TVal (VFloat NaN)) (json_lex (drop 2 xs))
      else if starts_with ''Infinity'' (x # xs)
        then cons_token (TVal (VFloat PosInf)) (json_lex (drop 7 xs))
      else if starts_with ''-Infinity'' (x # xs)
        then cons_token (TVal (VFloat NegInf)) (json_lex (drop 8 xs))
      else
        (case match_number (x # xs) of
           None \<Rightarrow> None
         | Some (v, rest) \<Rightarrow> cons_token (TVal v) (json_lex rest)))"
  by pat_completeness auto
termination
  by (relation "measure length")
     (auto dest: scanstring_shorter match_number_shorter)

declare json_lex.simps [simp del]

text \<open>
  The stack machine.  A frame is an array under construction (its items, last first), an
  object waiting for a key, or an object waiting for the value of a key.  The machine
  expects a value, a key or a colon, or has just completed a value.  A closing bracket is
  accepted in place of a first item only, so a trailing comma is refused.
\<close>

datatype frame =
    FArr "pyval list"
  | FObj "(pystr \<times> pyval) list"
  | FKey "(pystr \<times> pyval) list" pystr

datatype expect = XValue | XKey | XColon | XAfter pyval

fun json_step :: "frame list \<times> expect \<Rightarrow> token \<Rightarrow> (frame list \<times> expect) option" where
  "json_step (st, XValue) t =
     (case t of
        TVal v \<Rightarrow> Some (st, XAfter v)
      | TLBrack \<Rightarrow> Some (FArr [] # st, XValue)
      | TLBrace \<Rightarrow> Some (FObj [] # st, XKey)
      | TRBrack \<Rightarrow> (case st of FArr [] # st' \<Rightarrow> Some (st', XAfter (VList [])) | _ \<Rightarrow> None)
      | _ \<Rightarrow> None)"
| "json_step (st, XKey) t =
     (case t of
        TVal (VStr k) \<Rightarrow> (case st of FObj kvs # st' \<Rightarrow> Some (FKey kvs k # st', XColon) | _ \<Rightarrow> None)
      | TRBrace \<Rightarrow> (case st of FObj [] # st' \<Rightarrow> Some (st', XAfter (VDict [])) | _ \<Rightarrow> None)
      | _ \<Rightarrow> None)"
| "json_step (st, XColon) t = (case t of TColon \<Rightarrow> Some (st, XValue) | _ \<Rightarrow> None)"
| "json_step (st, XAfter v) t =
     (case st of
        FArr items # st' \<Rightarrow>
          (case t of
             TComma \<Rightarrow> Some (FArr (v # items) # st', XValue)
           | TRBrack \<Rightarrow> Some (st', XAfter (VList (rev (v # items))))
           | _ \<Rightarrow> None)
      | FKey kvs k # st' \<Rightarrow>
          (case t of
             TComma \<Rightarrow> Some (FObj (dict_set k v kvs) # st', XKey)
           | TRBrace \<Rightarrow> Some (st', XAfter (VDict (dict_set k v kvs)))
           | _ \<Rightarrow> None)
      | _ \<Rightarrow> None)"

fun json_run :: "frame list \<times> expect \<Rightarrow> token list \<Rightarrow> pyval option" where
  "json_run (st, x) [] = (case (st, x) of ([], XAfter v) \<Rightarrow> Some v | _ \<Rightarrow> None)"
| "json_run (st, x) (t # ts) =
     (case json_step (st, x) t of None \<Rightarrow> None | Some c \<Rightarrow> json_run c ts)"

definition json_loads :: "pystr \<Rightarrow> pyval option" where
  "json_loads s =
     (case json_lex s of None \<Rightarrow> None | Some ts \<Rightarrow> json_run ([], XValue) ts)"

section \<open>The tolerant JSON extractor\<close>

text \<open>
  A function that returns \<open>Optional[...]\<close> returns a Python value; \<open>VNone\<close> is its None.
  \<^verbatim>\<open>
  def parse_json(text):
      try:
          return json.loads(text)
      except json.JSONDecodeError:
          return None
  \<close>
\<close>

definition parse_json :: "pystr \<Rightarrow> pyval" where
  "parse_json text = (case json_loads text of Some v \<Rightarrow> v | None \<Rightarrow> VNone)"

text \<open>
  \<^verbatim>\<open>
  def extract_from_markdown(text):
      for pattern in patterns:
          match = re.search(pattern, text, re.DOTALL)
          if match:
              return match.group(1)
      return None
  \<close>
  A match object is always true, so the first pattern that matches decides.
\<close>

fun first_match :: "ritem list list \<Rightarrow> pystr \<Rightarrow> pystr option" where
  "first_match [] text = None"
| "first_match (p # ps) text =
     (case re_search p text of Some g \<Rightarrow> Some g | None \<Rightarrow> first_match ps text)"

definition extract_from_markdown :: "pystr \<Rightarrow> pystr option" where
  "extract_from_markdown text = first_match patterns text"

text \<open>
  \<^verbatim>\<open>
  def smart_parse(text):
      result = JSONParser.parse_json(text)
      if result:
          return result
      json_str = JSONParser.extract_from_markdown(text)
      if json_str:
          result = JSONParser.parse_json(json_str)
          if result:
              return result
      return None
  \<close>
\<close>

definition smart_parse :: "pystr \<Rightarrow> pyval" where
  "smart_parse text =
     (let result = parse_json text in
      if truthy result then result
      else
        case extract_from_markdown text of
          None \<Rightarrow> VNone
        | Some json_str \<Rightarrow>
            if json_str \<noteq> [] then
              (let result = parse_json json_str in
               if truthy result then result else VNone)
            else VNone)"

text \<open>
  \<open>JSONExtractor.extract\<close> of \<^verbatim>\<open>product_listing_refactored.py\<close> (\<open>extract\<close> alone
  is a command of Isabelle, hence the longer name):
  \<^verbatim>\<open>
  def extract(response_text):
      try:
          return json.loads(response_text)
      except json.JSONDecodeError:
          pass
      for pattern in patterns:
          match = re.search(pattern, response_text, re.DOTALL)
          if match:
              try:
                  return json.loads(match.group(1))
              except json.JSONDecodeError:
                  continue
      return None
  \<close>
\<close>

fun extract_loop :: "ritem list list \<Rightarrow> pystr \<Rightarrow> pyval" where
  "extract_loop [] response_text = VNone"
| "extract_loop (p # ps) response_text =
     (case re_search p response_text of
        None \<Rightarrow> extract_loop ps response_text
      | Some g \<Rightarrow>
          (case json_loads g of
             Some v \<Rightarrow> v
           | None \<Rightarrow> extract_loop ps response_text))"

definition JSONExtractor_extract :: "pystr \<Rightarrow> pyval" where
  "JSONExtractor_extract response_text =
     (case json_loads response_text of
        Some v \<Rightarrow> v
      | None \<Rightarrow> extract_loop patterns response_text)"

text \<open>
  The span that the specification describes for the last attempt: from the first \<open>{\<close> of
  the text to its last \<open>}\<close>.  It is not used by the code; it is here to be compared
  with what the third pattern captures.
\<close>

definition spec_first_to_last_brace :: "pystr \<Rightarrow> pystr" where
  "spec_first_to_last_brace text =
     rev (dropWhile (\<lambda>x. x \<noteq> 125) (rev (dropWhile (\<lambda>x. x \<noteq> 123) text)))"

section \<open>Batch processing helpers\<close>

text \<open>
  \<^verbatim>\<open>
  def batch_items(items, batch_size):
      return [items[i:i + batch_size] for i in range(0, len(items), batch_size)]
  \<close>
  \<open>range(0, n, k)\<close> raises ValueError for \<open>k = 0\<close>, is empty for \<open>k < 0\<close>, and
  for \<open>k > 0\<close> runs through \<open>0, k, 2k, \<dots>\<close> below \<open>n\<close>.  \<open>batches_from\<close> is the
  comprehension over that range from index \<open>i\<close> on; the slice \<open>items[i:i + k]\<close> with
  \<open>0 \<le> i\<close> and \<open>0 < k\<close> is \<open>take k (drop i items)\<close>.
\<close>

function batches_from :: "'a list \<Rightarrow> nat \<Rightarrow> nat \<Rightarrow> 'a list list" where
  "batches_from items k i =
     (if 0 < k \<and> i < length items
      then take k (drop i items) # batches_from items k (i + k)
      else [])"
  by pat_completeness auto
termination
  by (relation "measure (\<lambda>(items, k, i). length items - i)") auto

declare batches_from.simps [simp del]

definition batch_items :: "'a list \<Rightarrow> int \<Rightarrow> error + 'a list list" where
  "batch_items items batch_size =
     (if batch_size = 0 then Inl ValueError
      else if batch_size < 0 then Inr []
      else Inr (batches_from items (nat batch_size) 0))"

section \<open>Evaluation rules\<close>

lemmas json_eval =
  json_loads_def json_lex.simps json_ws_def scanstring.simps cons_token_def starts_with_def
  py_def match_number_def is_digit_def exponent_part_def digits_val_def escape_char_def
  hex_val_def

lemmas search_eval =
  extract_from_markdown_def patterns_def pattern_json_fence_def pattern_fence_def
  pattern_braces_def lit_def brace_group_def push_def is_space_def

lemmas validate_eval =
  first_missing.simps getitem_def py_def str_is_blank_def strip_def is_space_def to_float_def
  py_len_def is_list_def is_str_def empty_or_longer_def empty_or_shorter_def
  product_required_fields_def listing_required_fields_def num_less_def num_key_def

section \<open>Properties of rounding\<close>

lemma pow2_powi: "pow2 k = 2 powi k"
  by (simp add: pow2_def power_int_def power_one_over inverse_eq_divide)

lemma pow2_pos [simp]: "0 < pow2 k"
  by (simp add: pow2_powi)

lemma pow2_add: "pow2 (a + b) = pow2 a * pow2 b"
  by (simp add: pow2_powi power_int_add)

lemma pow2_mono: "a \<le> b \<Longrightarrow> pow2 a \<le> pow2 b"
  by (simp add: pow2_powi power_int_increasing)

lemma pow2_strict_mono: "a < b \<Longrightarrow> pow2 a < pow2 b"
  by (simp add: pow2_powi power_int_strict_increasing)

lemma pow2_nat: "0 \<le> k \<Longrightarrow> pow2 k = of_int (2 ^ nat k)"
  by (simp add: pow2_def)

lemma pow2_diff: "pow2 a / pow2 b = pow2 (a - b)"
  by (simp add: pow2_powi power_int_diff)

lemma binade_bounds:
  assumes "0 < q"
  shows "pow2 (binade q) \<le> q \<and> q < pow2 (binade q + 1)"
proof -
  obtain n d where nd: "quotient_of q = (n, d)" by (cases "quotient_of q")
  then have d: "0 < d" by (rule quotient_of_denom_pos)
  have q: "q = of_int n / of_int d" using nd by (rule quotient_of_div)
  with assms d have n: "0 < n" by (simp add: zero_less_divide_iff)
  define k where "k = bitlen n - bitlen d"
  have bn: "1 \<le> bitlen n" "1 \<le> bitlen d"
    using n d by (auto simp: bitlen_alt_def)
  have n1: "pow2 (bitlen n - 1) \<le> of_int n"
  proof -
    have "(2::int) ^ nat (bitlen n - 1) \<le> n" using bitlen_bounds [OF n] by simp
    then have "(of_int (2 ^ nat (bitlen n - 1)) :: rat) \<le> of_int n" by (simp only: of_int_le_iff)
    then show ?thesis using bn(1) by (simp only: pow2_nat [of "bitlen n - 1"] diff_ge_0_iff_ge)
  qed
  have n2: "of_int n < pow2 (bitlen n)"
  proof -
    have "n < (2::int) ^ nat (bitlen n)" using bitlen_bounds [OF n] by simp
    then have "(of_int n :: rat) < of_int (2 ^ nat (bitlen n))" by (simp only: of_int_less_iff)
    then show ?thesis using bn(1) by (simp add: pow2_nat [of "bitlen n"])
  qed
  have d1: "pow2 (bitlen d - 1) \<le> of_int d"
  proof -
    have "(2::int) ^ nat (bitlen d - 1) \<le> d" using bitlen_bounds [OF d] by simp
    then have "(of_int (2 ^ nat (bitlen d - 1)) :: rat) \<le> of_int d" by (simp only: of_int_le_iff)
    then show ?thesis using bn(2) by (simp only: pow2_nat [of "bitlen d - 1"] diff_ge_0_iff_ge)
  qed
  have d2: "of_int d < pow2 (bitlen d)"
  proof -
    have "d < (2::int) ^ nat (bitlen d)" using bitlen_bounds [OF d] by simp
    then have "(of_int d :: rat) < of_int (2 ^ nat (bitlen d))" by (simp only: of_int_less_iff)
    then show ?thesis using bn(2) by (simp add: pow2_nat [of "bitlen d"])
  qed
  have dq: "(0::rat) < of_int d" using d by simp
  have up: "q < pow2 (k + 1)"
  proof -
    have "of_int n < pow2 (bitlen n)" by (rule n2)
    also have "\<dots> = pow2 (k + 1) * pow2 (bitlen d - 1)"
      by (simp add: k_def flip: pow2_add)
    also have "\<dots> \<le> pow2 (k + 1) * of_int d"
      using d1 by (simp add: mult_left_mono less_imp_le)
    finally show ?thesis using dq by (simp add: q pos_divide_less_eq)
  qed
  have lo: "pow2 (k - 1) < q"
  proof -
    have "pow2 (k - 1) * of_int d < pow2 (k - 1) * pow2 (bitlen d)"
      using d2 by (simp add: mult_strict_left_mono)
    also have "\<dots> = pow2 (bitlen n - 1)"
      by (simp add: k_def flip: pow2_add)
    also have "\<dots> \<le> of_int n" by (rule n1)
    finally show ?thesis using dq by (simp add: q pos_less_divide_eq)
  qed
  have b: "binade q = (if pow2 k \<le> q then k else k - 1)"
    by (simp add: binade_def nd k_def Let_def)
  show ?thesis
  proof (cases "pow2 k \<le> q")
    case True
    with up b show ?thesis by simp
  next
    case False
    with lo b show ?thesis by (simp add: less_imp_le)
  qed
qed

lemma binade_eqI:
  assumes "pow2 e \<le> q" "q < pow2 (e + 1)"
  shows "binade q = e"
proof -
  have q: "0 < q" using assms(1) pow2_pos [of e] by (rule less_le_trans [rotated])
  have b: "pow2 (binade q) \<le> q" "q < pow2 (binade q + 1)"
    using binade_bounds [OF q] by simp_all
  have "pow2 e < pow2 (binade q + 1)" using assms(1) b(2) by simp
  then have 1: "e < binade q + 1"
    using pow2_mono [of "binade q + 1" e] by (cases "e < binade q + 1") auto
  have "pow2 (binade q) < pow2 (e + 1)" using assms(2) b(1) by simp
  then have 2: "binade q < e + 1"
    using pow2_mono [of "e + 1" "binade q"] by (cases "binade q < e + 1") auto
  from 1 2 show ?thesis by simp
qed

lemma round_half_even_bounds:
  "of_int (round_half_even x) \<le> x + 1 / 2 \<and> x - 1 / 2 \<le> of_int (round_half_even x)"
proof -
  define f where "f = \<lfloor>x\<rfloor>"
  have f: "of_int f \<le> x" "x < of_int f + 1" unfolding f_def by linarith+
  have r: "round_half_even x =
     (if x - of_int f < 1 / 2 then f
      else if 1 / 2 < x - of_int f then f + 1
      else if even f then f else f + 1)"
    by (simp add: round_half_even_def Let_def f_def)
  show ?thesis
  proof (cases "x - of_int f < 1 / 2")
    case True
    with r f show ?thesis by simp
  next
    case False
    then have "round_half_even x = f \<or> round_half_even x = f + 1"
      using r by auto
    moreover have "x - of_int f \<le> 1 / 2" if "round_half_even x = f"
      using that r False by (auto split: if_splits)
    ultimately show ?thesis using f False by auto
  qed
qed

lemma round_half_even_le: "x \<le> of_int n \<Longrightarrow> round_half_even x \<le> n"
proof -
  assume a: "x \<le> of_int n"
  have "(of_int (round_half_even x) :: rat) \<le> x + 1 / 2" using round_half_even_bounds by simp
  also have "\<dots> < of_int n + 1" using a by simp
  finally have "(of_int (round_half_even x) :: rat) < of_int (n + 1)" by simp
  then have "round_half_even x < n + 1" by (simp only: of_int_less_iff)
  then show ?thesis by simp
qed

lemma round_half_even_ge: "of_int n \<le> x \<Longrightarrow> n \<le> round_half_even x"
proof -
  assume a: "of_int n \<le> x"
  have "of_int n - 1 < x - 1 / 2" using a by simp
  also have "\<dots> \<le> (of_int (round_half_even x) :: rat)" using round_half_even_bounds by simp
  finally have "(of_int (n - 1) :: rat) < of_int (round_half_even x)" by simp
  then have "n - 1 < round_half_even x" by (simp only: of_int_less_iff)
  then show ?thesis by simp
qed

lemma round_half_even_less: "x < of_int n - 1 / 2 \<Longrightarrow> round_half_even x \<le> n - 1"
proof -
  assume a: "x < of_int n - 1 / 2"
  have "(of_int (round_half_even x) :: rat) \<le> x + 1 / 2" using round_half_even_bounds by simp
  also have "\<dots> < of_int n" using a by simp
  finally have "round_half_even x < n" by (simp only: of_int_less_iff)
  then show ?thesis by simp
qed


lemma round_double_rounded:
  "q \<noteq> 0 \<Longrightarrow> round_double neg q =
     (if pow2 1024 \<le> rounded q then (if neg then NegInf else PosInf)
      else if rounded q = 0 then (if neg then NegZero else Fin 0)
      else Fin (if neg then - rounded q else rounded q))"
  by (simp add: round_double_def)

lemma rounded_nonneg: "0 < q \<Longrightarrow> 0 \<le> rounded q"
proof -
  assume q: "0 < q"
  let ?p = "max (binade q) (- 1022) - 52"
  have "of_int 0 \<le> q / pow2 ?p" using q by (simp add: less_imp_le)
  then have "0 \<le> round_half_even (q / pow2 ?p)" by (rule round_half_even_ge)
  then show ?thesis by (simp add: rounded_def less_imp_le)
qed

lemma binade_less:
  assumes "0 < q" "q < pow2 k"
  shows "binade q < k"
proof (rule ccontr)
  assume "\<not> binade q < k"
  then have "pow2 k \<le> pow2 (binade q)" by (simp add: pow2_mono)
  also have "\<dots> \<le> q" using binade_bounds [OF assms(1)] by simp
  finally show False using assms(2) by simp
qed

lemma binade_ge:
  assumes "pow2 k \<le> q"
  shows "k \<le> binade q"
proof (rule ccontr)
  assume "\<not> k \<le> binade q"
  then have "binade q + 1 \<le> k" by simp
  then have "pow2 (binade q + 1) \<le> pow2 k" by (rule pow2_mono)
  moreover have "0 < q" using assms pow2_pos [of k] by (rule less_le_trans [rotated])
  ultimately show False using binade_bounds [of q] assms by simp
qed

lemma rounded_le_pow2:
  assumes "0 < q" "q \<le> pow2 k" "- 1074 \<le> k"
  shows "rounded q \<le> pow2 k"
proof -
  let ?p = "max (binade q) (- 1022) - 52"
  have "pow2 (binade q) \<le> pow2 k"
    using binade_bounds [OF assms(1)] assms(2) by simp
  then have "binade q \<le> k"
    using pow2_strict_mono [of k "binade q"] by (cases "binade q \<le> k") auto
  with assms(3) have pk: "?p \<le> k" by simp
  have "q / pow2 ?p \<le> pow2 k / pow2 ?p"
    using assms(2) by (simp add: divide_right_mono less_imp_le)
  also have "\<dots> = of_int (2 ^ nat (k - ?p))"
    using pk by (simp only: pow2_diff pow2_nat [of "k - ?p"] diff_ge_0_iff_ge)
  finally have "round_half_even (q / pow2 ?p) \<le> 2 ^ nat (k - ?p)"
    by (rule round_half_even_le)
  then have "(of_int (round_half_even (q / pow2 ?p)) :: rat) \<le> of_int (2 ^ nat (k - ?p))"
    by (simp only: of_int_le_iff)
  also have "\<dots> = pow2 (k - ?p)"
    using pk by (simp only: pow2_nat [of "k - ?p"] diff_ge_0_iff_ge)
  finally have "rounded q \<le> pow2 (k - ?p) * pow2 ?p"
    unfolding rounded_def by (simp add: mult_right_mono less_imp_le)
  then show ?thesis by (simp flip: pow2_add)
qed

lemma rounded_top_binade:
  assumes "pow2 1023 \<le> q" "q < pow2 1024 - pow2 970"
  shows "rounded q < pow2 1024"
proof -
  have "q < pow2 1024" using assms(2) pow2_pos [of 970] by linarith
  with assms(1) have e: "binade q = 1023" by (intro binade_eqI) simp_all
  have h: "pow2 1024 = pow2 53 * pow2 971" "pow2 970 = pow2 (- 1) * pow2 971"
    by (simp_all flip: pow2_add)
  have "q / pow2 971 < (pow2 1024 - pow2 970) / pow2 971"
    using assms(2) by (simp add: divide_strict_right_mono)
  also have "\<dots> = pow2 53 - pow2 (- 1)"
  proof -
    have "pow2 971 \<noteq> 0" using pow2_pos [of 971] by (simp only: less_imp_neq [symmetric] not_False_eq_True)
    then show ?thesis unfolding h by (simp add: diff_divide_distrib)
  qed
  also have "\<dots> = of_int (2 ^ 53) - 1 / 2"
    by (simp add: pow2_def)
  finally have "round_half_even (q / pow2 971) \<le> 2 ^ 53 - 1"
    by (rule round_half_even_less)
  then have "(of_int (round_half_even (q / pow2 971)) :: rat) \<le> of_int (2 ^ 53 - 1)"
    by (simp only: of_int_le_iff)
  also have "\<dots> = pow2 53 - 1"
    by (simp add: pow2_def)
  finally have "rounded q \<le> (pow2 53 - 1) * pow2 971"
    unfolding rounded_def e by (simp add: mult_right_mono less_imp_le)
  also have "\<dots> = pow2 1024 - pow2 971"
    unfolding h by (simp add: algebra_simps)
  also have "\<dots> < pow2 1024" by simp
  finally show ?thesis .
qed

lemma rounded_in_range:
  assumes "0 < q" "q < pow2 1024 - pow2 970"
  shows "rounded q < pow2 1024"
proof (cases "pow2 1023 \<le> q")
  case True
  then show ?thesis using assms(2) by (rule rounded_top_binade)
next
  case False
  then have "rounded q \<le> pow2 1023" using assms(1) by (intro rounded_le_pow2) simp_all
  also have "\<dots> < pow2 1024" by (rule pow2_strict_mono) simp
  finally show ?thesis .
qed

lemma rounded_pos:
  assumes "1 \<le> q"
  shows "0 < rounded q"
proof -
  have "pow2 0 \<le> q" using assms by (simp add: pow2_def)
  then have e: "0 \<le> binade q" by (rule binade_ge)
  then have p: "max (binade q) (- 1022) - 52 = binade q - 52" by simp
  have q: "0 < q" using assms by simp
  have "of_int (2 ^ 52) = pow2 52"
    by (simp add: pow2_def)
  also have "\<dots> = pow2 (binade q) / pow2 (binade q - 52)"
    by (simp add: pow2_diff)
  also have "\<dots> \<le> q / pow2 (binade q - 52)"
    using binade_bounds [OF q] by (simp add: divide_right_mono less_imp_le)
  finally have "2 ^ 52 \<le> round_half_even (q / pow2 (binade q - 52))"
    by (rule round_half_even_ge)
  then have "0 < round_half_even (q / pow2 (binade q - 52))"
    by (rule less_le_trans [rotated]) simp
  then show ?thesis unfolding rounded_def p by simp
qed

lemma float_of_int_nonneg:
  assumes "0 \<le> n" "n < 2 ^ 1024 - 2 ^ 970"
  shows "\<exists>r. float_of_int n = Inr (Fin r) \<and> 0 \<le> r"
proof (cases "n = 0")
  case True
  then show ?thesis by (simp add: float_of_int_def round_double_def)
next
  case False
  with assms(1) have q: "(0::rat) < of_int \<bar>n\<bar>" by simp
  have "(of_int \<bar>n\<bar> :: rat) < of_int (2 ^ 1024 - 2 ^ 970)"
    using assms by (simp only: of_int_less_iff abs_of_nonneg abs_of_neg)
  also have "\<dots> = pow2 1024 - pow2 970" by (simp add: pow2_def)
  finally have "rounded (of_int \<bar>n\<bar>) < pow2 1024" using q by (intro rounded_in_range)
  moreover have "0 \<le> rounded (of_int \<bar>n\<bar>)" using q by (rule rounded_nonneg)
  ultimately show ?thesis
    using assms(1) False by (simp add: float_of_int_def round_double_rounded)
qed

lemma float_of_int_neg:
  assumes "n < 0" "- (2 ^ 1024 - 2 ^ 970) < n"
  shows "\<exists>r. float_of_int n = Inr (Fin r) \<and> r < 0"
proof -
  have q1: "(1::rat) \<le> of_int \<bar>n\<bar>" using assms(1) by simp
  then have q: "(0::rat) < of_int \<bar>n\<bar>" by simp
  have "(of_int \<bar>n\<bar> :: rat) < of_int (2 ^ 1024 - 2 ^ 970)"
    using assms by (simp only: of_int_less_iff abs_of_nonneg abs_of_neg)
  also have "\<dots> = pow2 1024 - pow2 970" by (simp add: pow2_def)
  finally have "rounded (of_int \<bar>n\<bar>) < pow2 1024" using q by (intro rounded_in_range)
  moreover have "0 < rounded (of_int \<bar>n\<bar>)" using q1 by (rule rounded_pos)
  ultimately show ?thesis
    using assms(1) by (simp add: float_of_int_def round_double_rounded)
qed

lemma rounded_ge_pow2:
  assumes "pow2 k \<le> q" "- 1022 \<le> k"
  shows "pow2 k \<le> rounded q"
proof -
  have e: "k \<le> binade q" using assms(1) by (rule binade_ge)
  with assms(2) have p: "max (binade q) (- 1022) - 52 = binade q - 52" by simp
  have q: "0 < q" using assms(1) pow2_pos [of k] by (rule less_le_trans [rotated])
  have "of_int (2 ^ 52) = pow2 52"
    by (simp add: pow2_def)
  also have "\<dots> = pow2 (binade q) / pow2 (binade q - 52)"
    by (simp add: pow2_diff)
  also have "\<dots> \<le> q / pow2 (binade q - 52)"
    using binade_bounds [OF q] by (simp add: divide_right_mono less_imp_le)
  finally have "2 ^ 52 \<le> round_half_even (q / pow2 (binade q - 52))"
    by (rule round_half_even_ge)
  then have "(of_int (2 ^ 52) :: rat) \<le> of_int (round_half_even (q / pow2 (binade q - 52)))"
    by (simp only: of_int_le_iff)
  then have "pow2 52 \<le> of_int (round_half_even (q / pow2 (binade q - 52)))"
    by (simp add: pow2_def)
  then have "pow2 52 * pow2 (binade q - 52) \<le> rounded q"
    unfolding rounded_def p by (simp add: mult_right_mono less_imp_le)
  then have "pow2 (binade q) \<le> rounded q"
    by (simp flip: pow2_add)
  moreover have "pow2 k \<le> pow2 (binade q)" using e by (rule pow2_mono)
  ultimately show ?thesis by simp
qed

lemma float_of_int_overflow:
  assumes "2 ^ 1024 \<le> \<bar>n\<bar>"
  shows "float_of_int n = Inl OverflowError"
proof -
  have "(of_int (2 ^ 1024) :: rat) \<le> of_int \<bar>n\<bar>"
    using assms by (simp only: of_int_le_iff)
  then have q: "pow2 1024 \<le> of_int \<bar>n\<bar>"
    by (simp add: pow2_def)
  then have "pow2 1024 \<le> rounded (of_int \<bar>n\<bar>)"
    by (rule rounded_ge_pow2) simp
  moreover have "(of_int \<bar>n\<bar> :: rat) \<noteq> 0"
    using q pow2_pos [of 1024] by linarith
  ultimately show ?thesis
    by (simp add: float_of_int_def round_double_def)
qed

lemma round_half_even_eqI:
  assumes "of_int n - 1 / 2 < x" "x < of_int n + 1 / 2"
  shows "round_half_even x = n"
proof -
  define f where "f = \<lfloor>x\<rfloor>"
  have f: "of_int f \<le> x" "x < of_int f + 1" unfolding f_def by linarith+
  have r: "round_half_even x =
     (if x - of_int f < 1 / 2 then f
      else if 1 / 2 < x - of_int f then f + 1
      else if even f then f else f + 1)"
    by (simp add: round_half_even_def Let_def f_def)
  have "(of_int f :: rat) < of_int (n + 1)" using f(1) assms(2) by simp
  then have 1: "f < n + 1" by (simp only: of_int_less_iff)
  have "(of_int (n - 1) :: rat) < of_int (f + 1)" using f(2) assms(1) by simp
  then have 2: "n - 1 < f + 1" by (simp only: of_int_less_iff)
  from 1 2 consider "f = n" | "f = n - 1" by linarith
  then show ?thesis
  proof cases
    case 1
    with assms(2) r show ?thesis by simp
  next
    case 2
    with assms(1) r show ?thesis by simp
  qed
qed

section \<open>What the third pattern captures\<close>

lemma dropWhile_upto_first:
  "c \<notin> set pre \<Longrightarrow> dropWhile (\<lambda>x. x \<noteq> c) (pre @ c # rest) = c # rest"
  by (induction pre) auto

lemma takeWhile_upto_first:
  "c \<notin> set pre \<Longrightarrow> takeWhile (\<lambda>x. x \<noteq> c) (pre @ c # rest) = pre"
  by (induction pre) auto

lemma rmatch_lazy_to_brace:
  "rmatch [LazyStar AnyChar, One (Chr 125), GroupClose] s (True, acc) =
     (if 125 \<in> set s then Some (rev acc @ takeWhile (\<lambda>x. x \<noteq> 125) s @ [125]) else None)"
  by (induction s arbitrary: acc) (simp_all add: push_def)

lemma rmatch_brace_group:
  "rmatch brace_group s g =
     (case s of
        [] \<Rightarrow> None
      | x # xs \<Rightarrow>
          if x = 123 \<and> 125 \<in> set xs
          then Some (123 # takeWhile (\<lambda>x. x \<noteq> 125) xs @ [125]) else None)"
  by (cases s) (simp_all add: brace_group_def push_def rmatch_lazy_to_brace)

lemma re_search_brace_group:
  "re_search brace_group s =
     (case dropWhile (\<lambda>x. x \<noteq> 123) s of
        [] \<Rightarrow> None
      | x # xs \<Rightarrow>
          if 125 \<in> set xs then Some (123 # takeWhile (\<lambda>x. x \<noteq> 125) xs @ [125]) else None)"
proof (induction s)
  case Nil
  show ?case by (simp add: rmatch_brace_group)
next
  case (Cons a s)
  show ?case
  proof (cases "a = 123")
    case False
    with Cons show ?thesis by (simp add: rmatch_brace_group)
  next
    case True
    show ?thesis
    proof (cases "125 \<in> set s")
      case True
      with \<open>a = 123\<close> show ?thesis by (simp add: rmatch_brace_group)
    next
      case False
      have "125 \<notin> set xs" if "dropWhile (\<lambda>x. x \<noteq> 123) s = x # xs" for x xs
      proof -
        have "set xs \<subseteq> set (dropWhile (\<lambda>x. x \<noteq> 123) s)" using that by auto
        with False show ?thesis using set_dropWhileD by fastforce
      qed
      then have "re_search brace_group s = None"
        using Cons by (auto split: list.splits)
      with False \<open>a = 123\<close> show ?thesis by (simp add: rmatch_brace_group)
    qed
  qed
qed

lemma re_search_brace_group_split:
  assumes "123 \<notin> set pre" and "125 \<notin> set mid"
  shows "re_search brace_group (pre @ [123] @ mid @ [125] @ post) = Some ([123] @ mid @ [125])"
proof -
  have d: "dropWhile (\<lambda>x. x \<noteq> 123) (pre @ [123] @ mid @ [125] @ post) = 123 # mid @ [125] @ post"
    using assms(1) by (simp add: dropWhile_upto_first)
  have t: "takeWhile (\<lambda>x. x \<noteq> 125) (mid @ [125] @ post) = mid"
    using assms(2) by (simp add: takeWhile_upto_first)
  show ?thesis
    unfolding re_search_brace_group d using t by simp
qed

lemma re_search_brace_group_none:
  "re_search brace_group s = None \<longleftrightarrow>
     \<not> (\<exists>pre mid post. s = pre @ [123] @ mid @ [125] @ post)"
proof
  assume n: "re_search brace_group s = None"
  show "\<not> (\<exists>pre mid post. s = pre @ [123] @ mid @ [125] @ post)"
  proof
    assume "\<exists>pre mid post. s = pre @ [123] @ mid @ [125] @ post"
    then obtain pre mid post where s: "s = pre @ [123] @ mid @ [125] @ post" by blast
    obtain pre' r where p: "pre @ [123] = pre' @ 123 # r" "123 \<notin> set pre'"
      using split_list_first [of 123 "pre @ [123]"] by auto
    have "dropWhile (\<lambda>x. x \<noteq> 123) s = 123 # r @ mid @ [125] @ post"
    proof -
      have "s = pre' @ 123 # (r @ mid @ [125] @ post)" using s p(1) by (metis append.assoc append_Cons)
      then show ?thesis using p(2) by (simp add: dropWhile_upto_first)
    qed
    with n show False by (simp add: re_search_brace_group)
  qed
next
  assume a: "\<not> (\<exists>pre mid post. s = pre @ [123] @ mid @ [125] @ post)"
  show "re_search brace_group s = None"
  proof (cases "dropWhile (\<lambda>x. x \<noteq> 123) s")
    case Nil
    show ?thesis unfolding re_search_brace_group Nil by simp
  next
    case (Cons x xs)
    then have x: "x = 123" using hd_dropWhile [of "\<lambda>x. x \<noteq> 123" s] by force
    have s: "s = takeWhile (\<lambda>x. x \<noteq> 123) s @ [123] @ xs"
      using takeWhile_dropWhile_id [of "\<lambda>x. x \<noteq> 123" s] Cons x by simp
    have "125 \<notin> set xs"
    proof
      assume "125 \<in> set xs"
      then obtain m p where "xs = m @ 125 # p" by (meson split_list)
      with s have "s = takeWhile (\<lambda>x. x \<noteq> 123) s @ [123] @ m @ [125] @ p" by simp
      with a show False by blast
    qed
    then show ?thesis unfolding re_search_brace_group Cons by simp
  qed
qed

section \<open>Properties of the tolerant JSON extractor\<close>

text \<open>
  C1.  The claim reads the last attempt as a greedy match, from the first \<open>{\<close> to the
  last \<open>}\<close>.  The pattern is \<^verbatim>\<open>(\{.*?\})\<close>, with a lazy star: it captures from the
  first \<open>{\<close> to the first \<open>}\<close> after it.  On the text \<^verbatim>\<open>x{"a":{"b":1}}\<close> direct
  parsing fails and neither fenced pattern matches; the span from the first \<open>{\<close> to the
  last \<open>}\<close> is a valid object, the span to the first \<open>}\<close> is not, and both extractors
  return None instead of the object.
\<close>

theorem greedy_brace_span_counterexample:
  \<open>json_loads (py ''x{"a":{"b":1}}'') = None
   \<and> re_search pattern_json_fence (py ''x{"a":{"b":1}}'') = None
   \<and> re_search pattern_fence (py ''x{"a":{"b":1}}'') = None
   \<and> spec_first_to_last_brace (py ''x{"a":{"b":1}}'') = py ''{"a":{"b":1}}''
   \<and> json_loads (py ''{"a":{"b":1}}'') = Some (VDict [(py ''a'', VDict [(py ''b'', VInt 1)])])
   \<and> extract_from_markdown (py ''x{"a":{"b":1}}'') = Some (py ''{"a":{"b":1}'')
   \<and> json_loads (py ''{"a":{"b":1}'') = None
   \<and> smart_parse (py ''x{"a":{"b":1}}'') = VNone
   \<and> JSONExtractor_extract (py ''x{"a":{"b":1}}'') = VNone\<close>
  by (simp add: smart_parse_def JSONExtractor_extract_def parse_json_def
        spec_first_to_last_brace_def json_eval search_eval)

text \<open>
  C1, as amended.  When direct parsing fails and neither fenced pattern matches, the last
  attempt selects the substring from the first \<open>{\<close> of the text to the first \<open>}\<close> after
  it and parses that substring: \<open>extract_from_markdown\<close> returns it,
  \<open>JSONExtractor.extract\<close> returns what it parses to (None when it does not parse), and
  \<open>smart_parse\<close> returns what it parses to when that is a true value, None otherwise.
  In particular, when that substring is a non-empty JSON object, both extractors return
  the object.
\<close>

theorem fallback_takes_first_closing_brace:
  assumes direct: "json_loads text = None"
    and no_json_fence: "re_search pattern_json_fence text = None"
    and no_fence: "re_search pattern_fence text = None"
    and split: "text = pre @ py ''{'' @ mid @ py ''}'' @ post"
    and first_open: "of_char CHR ''{'' \<notin> set pre"
    and first_close: "of_char CHR ''}'' \<notin> set mid"
  shows "extract_from_markdown text = Some (py ''{'' @ mid @ py ''}'')
    \<and> JSONExtractor_extract text = parse_json (py ''{'' @ mid @ py ''}'')
    \<and> smart_parse text =
          (if truthy (parse_json (py ''{'' @ mid @ py ''}''))
           then parse_json (py ''{'' @ mid @ py ''}'') else VNone)
    \<and> (\<forall>kvs. json_loads (py ''{'' @ mid @ py ''}'') = Some (VDict kvs) \<and> kvs \<noteq> [] \<longrightarrow>
           smart_parse text = VDict kvs \<and> JSONExtractor_extract text = VDict kvs)"
proof -
  let ?span = "py ''{'' @ mid @ py ''}''"
  have braces: "py ''{'' = [123]" "py ''}'' = [125]"
    by (simp_all add: py_def)
  have "re_search brace_group (pre @ [123] @ mid @ [125] @ post) = Some ([123] @ mid @ [125])"
    using first_open first_close by (intro re_search_brace_group_split) simp_all
  then have third: "re_search pattern_braces text = Some ?span"
    by (simp add: split braces pattern_braces_def)
  have e: "extract_from_markdown text = Some ?span"
    by (simp add: extract_from_markdown_def patterns_def no_json_fence no_fence third)
  have x: "JSONExtractor_extract text = parse_json ?span"
    by (simp add: JSONExtractor_extract_def direct patterns_def no_json_fence no_fence third
          parse_json_def split: option.splits)
  have nonempty: "?span \<noteq> []"
    by (simp add: braces)
  have s: "smart_parse text = (if truthy (parse_json ?span) then parse_json ?span else VNone)"
    using nonempty by (simp add: smart_parse_def Let_def parse_json_def direct e)
  have "smart_parse text = VDict kvs \<and> JSONExtractor_extract text = VDict kvs"
    if "json_loads ?span = Some (VDict kvs)" "kvs \<noteq> []" for kvs
    using that by (simp add: s x parse_json_def)
  with e x s show ?thesis by blast
qed

theorem fallback_takes_first_closing_brace_witness:
  \<open>extract_from_markdown (py ''x{"a": 1} y {"b": 2}'') = Some (py ''{"a": 1}'')
   \<and> JSONExtractor_extract (py ''x{"a": 1} y {"b": 2}'') = VDict [(py ''a'', VInt 1)]
   \<and> smart_parse (py ''x{"a": 1} y {"b": 2}'') = VDict [(py ''a'', VInt 1)]\<close>
proof -
  have direct: \<open>json_loads (py ''x{"a": 1} y {"b": 2}'') = None\<close>
    by (simp add: json_eval)
  have no_json_fence: \<open>re_search pattern_json_fence (py ''x{"a": 1} y {"b": 2}'') = None\<close>
    by (simp add: json_eval search_eval)
  have no_fence: \<open>re_search pattern_fence (py ''x{"a": 1} y {"b": 2}'') = None\<close>
    by (simp add: json_eval search_eval)
  have split: \<open>py ''x{"a": 1} y {"b": 2}''
      = py ''x'' @ py ''{'' @ py ''"a": 1'' @ py ''}'' @ py '' y {"b": 2}''\<close>
    by (simp add: py_def)
  have first_open: \<open>of_char CHR ''{'' \<notin> set (py ''x'')\<close>
    by (simp add: py_def)
  have first_close: \<open>of_char CHR ''}'' \<notin> set (py ''"a": 1'')\<close>
    by (simp add: py_def)
  have span: \<open>py ''{'' @ py ''"a": 1'' @ py ''}'' = py ''{"a": 1}''\<close>
    by (simp add: py_def)
  have parsed: \<open>parse_json (py ''{"a": 1}'') = VDict [(py ''a'', VInt 1)]\<close>
    by (simp add: parse_json_def json_eval)
  show ?thesis
    using fallback_takes_first_closing_brace
            [OF direct no_json_fence no_fence split first_open first_close]
    by (simp add: span parsed)
qed

text \<open>
  C3.  The text \<^verbatim>\<open>[1]\<close> contains no brace-delimited substring (no pattern matches
  it), yet \<open>smart_parse\<close> returns the list it parses to and not None: the result of the
  direct parse is returned whenever it is a true value, whatever its type.
\<close>

theorem smart_parse_returns_non_object:
  \<open>extract_from_markdown (py ''[1]'') = None
   \<and> smart_parse (py ''[1]'') = VList [VInt 1]
   \<and> smart_parse (py ''[1]'') \<noteq> VNone\<close>
  by (simp add: smart_parse_def parse_json_def json_eval search_eval)

text \<open>
  C4.  The serialized object \<^verbatim>\<open>{"a": 1}\<close>, wrapped in a triple-backtick block with the
  tag \<open>json\<close> or with no tag (the fences on lines of their own, or directly around the
  object), is parsed by \<open>smart_parse\<close> to the object it serializes.
\<close>

theorem smart_parse_fence_round_trip:
  \<open>parse_json (py ''{"a": 1}'') = VDict [(py ''a'', VInt 1)]
   \<and> smart_parse (py ''```json\<newline>{"a": 1}\<newline>```'') = VDict [(py ''a'', VInt 1)]
   \<and> smart_parse (py ''```\<newline>{"a": 1}\<newline>```'') = VDict [(py ''a'', VInt 1)]
   \<and> smart_parse (py ''```json{"a": 1}```'') = VDict [(py ''a'', VInt 1)]
   \<and> smart_parse (py ''```{"a": 1}```'') = VDict [(py ''a'', VInt 1)]\<close>
  by (simp add: smart_parse_def parse_json_def json_eval search_eval)

text \<open>
  C5.  The text \<^verbatim>\<open>{}\<close> is valid JSON and parses to the empty object, but
  \<open>smart_parse\<close> returns None on it: the empty dictionary is not a true value, neither
  after the direct parse nor after the third pattern has captured \<^verbatim>\<open>{}\<close> again.  The
  result is the one that a text without any JSON gives.
\<close>

theorem smart_parse_empty_object:
  \<open>json_loads (py ''{}'') = Some (VDict [])
   \<and> parse_json (py ''{}'') = VDict []
   \<and> \<not> truthy (VDict [])
   \<and> extract_from_markdown (py ''{}'') = Some (py ''{}'')
   \<and> smart_parse (py ''{}'') = VNone
   \<and> smart_parse (py ''no json here'') = VNone\<close>
  by (simp add: smart_parse_def parse_json_def json_eval search_eval)

section \<open>Properties of the validation functions\<close>

lemma required_product_fields_present:
  assumes "map_of product (py ''id'') = Some i"
    and "map_of product (py ''name'') = Some n"
    and "map_of product (py ''price'') = Some p"
    and "map_of product (py ''category'') = Some c"
    and "map_of product (py ''image_path'') = Some ip"
  shows "first_missing product_required_fields product = None"
  using assms by (simp add: product_required_fields_def)

lemma nonblank_string: "strip s \<noteq> [] \<Longrightarrow> truthy (VStr s) \<and> \<not> str_is_blank (VStr s)"
  by (auto simp: str_is_blank_def strip_def)

text \<open>
  C2.  The validators do raise.  \<open>validate_listing_data\<close> calls \<open>len\<close> on the title
  (and on the description) without checking its type: a listing whose title is the number
  5 raises TypeError.  \<open>validate_product_data\<close> catches ValueError and TypeError around
  \<open>float(product['price'])\<close>, not OverflowError: a product whose price is the \<open>int\<close>
  \<open>2 ** 1024\<close> raises OverflowError.
\<close>

theorem validators_raise:
  "validate_listing_data
     [(py ''title'', VInt 5),
      (py ''description'',
         VStr (py ''This is a detailed description that is more than 50 characters long.'')),
      (py ''features'', VList [VStr (py ''Feature 1'')]),
      (py ''keywords'', VStr (py ''product, great''))] = Inl TypeError
   \<and> validate_product_data float_of_str
     [(py ''id'', VInt 1),
      (py ''name'', VStr (py ''Test Product'')),
      (py ''price'', VInt (2 ^ 1024)),
      (py ''category'', VStr (py ''Electronics'')),
      (py ''image_path'', VStr (py ''test.jpg''))] = Inl OverflowError"
  by (simp add: validate_listing_data_def validate_product_data_def validate_eval
        float_of_int_overflow)

theorem validators_raise_witness:
  "validate_listing_data
     [(py ''title'', VInt 5),
      (py ''description'',
         VStr (py ''This is a detailed description that is more than 50 characters long.'')),
      (py ''features'', VList [VStr (py ''Feature 1'')]),
      (py ''keywords'', VStr (py ''product, great''))] \<noteq> Inr (True, None)
   \<and> validate_product_data (\<lambda>s. None)
     [(py ''id'', VInt 1),
      (py ''name'', VStr (py ''Test Product'')),
      (py ''price'', VInt (2 ^ 1024)),
      (py ''category'', VStr (py ''Electronics'')),
      (py ''image_path'', VStr (py ''test.jpg''))] \<noteq> Inr (True, None)"
  using validators_raise [of "\<lambda>s. None"] by simp

text \<open>
  C6.  The product below has all the fields, a name and an image path that are not blank,
  and the non-negative \<open>int\<close> price \<open>2 ** 1024\<close>.  \<open>float(product['price'])\<close> raises
  OverflowError on it; the \<open>try\<close> around the conversion catches ValueError and
  TypeError only, so the exception leaves \<open>validate_product_data\<close> and no pair
  \<open>(True, None)\<close> is returned.
\<close>

theorem valid_product_huge_price_raises:
  "strip (py ''Test Product'') \<noteq> [] \<and> strip (py ''test.jpg'') \<noteq> [] \<and> (0::int) \<le> 2 ^ 1024
   \<and> (\<forall>float_of_str. validate_product_data float_of_str
     [(py ''id'', VInt 1),
      (py ''name'', VStr (py ''Test Product'')),
      (py ''price'', VInt (2 ^ 1024)),
      (py ''category'', VStr (py ''Electronics'')),
      (py ''image_path'', VStr (py ''test.jpg''))] = Inl OverflowError)"
  by (simp add: validate_product_data_def validate_eval float_of_int_overflow)

theorem valid_product_huge_price_raises_witness:
  "validate_product_data (\<lambda>s. None)
     [(py ''id'', VInt 1),
      (py ''name'', VStr (py ''Test Product'')),
      (py ''price'', VInt (2 ^ 1024)),
      (py ''category'', VStr (py ''Electronics'')),
      (py ''image_path'', VStr (py ''test.jpg''))] = Inl OverflowError
   \<and> validate_product_data (\<lambda>s. None)
     [(py ''id'', VInt 1),
      (py ''name'', VStr (py ''Test Product'')),
      (py ''price'', VInt (2 ^ 1024)),
      (py ''category'', VStr (py ''Electronics'')),
      (py ''image_path'', VStr (py ''test.jpg''))] \<noteq> Inr (True, None)"
  using valid_product_huge_price_raises by simp

text \<open>
  Where the conversion of the price does not raise, the validator does accept the product:
  for every dictionary with the fields id, name, price, category and image_path, with a
  price that is a non-negative \<open>float\<close> (a finite one, a zero or the positive infinity) or
  a non-negative \<open>int\<close> below \<open>2 ** 1024 - 2 ** 970\<close>, and with a name and an image path
  that are strings not empty after stripping whitespace, \<open>validate_product_data\<close>
  returns \<open>(True, None)\<close>.
\<close>

theorem validate_product_data_valid:
  assumes "map_of product (py ''id'') = Some i"
    and "map_of product (py ''name'') = Some (VStr name)"
    and "strip name \<noteq> []"
    and "map_of product (py ''price'') = Some price"
    and "case price of
           VFloat (Fin r) \<Rightarrow> 0 \<le> r
         | VFloat NegZero \<Rightarrow> True
         | VFloat PosInf \<Rightarrow> True
         | VInt n \<Rightarrow> 0 \<le> n \<and> n < 2 ^ 1024 - 2 ^ 970
         | _ \<Rightarrow> False"
    and "map_of product (py ''category'') = Some category"
    and "map_of product (py ''image_path'') = Some (VStr image_path)"
    and "strip image_path \<noteq> []"
  shows "validate_product_data float_of_str product = Inr (True, None)"
proof -
  have missing: "first_missing product_required_fields product = None"
    using assms by (intro required_product_fields_present)
  have name: "truthy (VStr name) \<and> \<not> str_is_blank (VStr name)"
    using assms(3) by (rule nonblank_string)
  have image: "truthy (VStr image_path) \<and> \<not> str_is_blank (VStr image_path)"
    using assms(8) by (rule nonblank_string)
  have "\<exists>f. to_float float_of_str price = Inr f \<and> \<not> num_less (NFloat f) (NInt 0)"
    using assms(5) float_of_int_nonneg
    by (fastforce simp: to_float_def num_less_def num_key_def split: pyval.splits pyfloat.splits)
  then obtain f where f: "to_float float_of_str price = Inr f" "\<not> num_less (NFloat f) (NInt 0)"
    by blast
  show ?thesis
    using name image
    by (simp add: validate_product_data_def missing getitem_def assms(2,4,7) f)
qed

theorem validate_product_data_valid_witness:
  "validate_product_data (\<lambda>s. None)
     [(py ''id'', VInt 1),
      (py ''name'', VStr (py ''Test Product'')),
      (py ''price'', VFloat (Fin (21 / 2))),
      (py ''category'', VStr (py ''Electronics'')),
      (py ''image_path'', VStr (py ''test.jpg''))] = Inr (True, None)
   \<and> validate_product_data (\<lambda>s. None)
     [(py ''id'', VStr (py ''sku-7'')),
      (py ''name'', VStr (py '' Lamp '')),
      (py ''price'', VInt 0),
      (py ''category'', VNone),
      (py ''image_path'', VStr (py ''lamp.png''))] = Inr (True, None)"
proof -
  have a: "validate_product_data (\<lambda>s. None)
     [(py ''id'', VInt 1),
      (py ''name'', VStr (py ''Test Product'')),
      (py ''price'', VFloat (Fin (21 / 2))),
      (py ''category'', VStr (py ''Electronics'')),
      (py ''image_path'', VStr (py ''test.jpg''))] = Inr (True, None)"
    by (rule validate_product_data_valid
          [where i = "VInt 1" and name = "py ''Test Product''" and price = "VFloat (Fin (21 / 2))"
             and category = "VStr (py ''Electronics'')" and image_path = "py ''test.jpg''"])
       (simp_all add: py_def strip_def is_space_def)
  have b: "validate_product_data (\<lambda>s. None)
     [(py ''id'', VStr (py ''sku-7'')),
      (py ''name'', VStr (py '' Lamp '')),
      (py ''price'', VInt 0),
      (py ''category'', VNone),
      (py ''image_path'', VStr (py ''lamp.png''))] = Inr (True, None)"
    by (rule validate_product_data_valid
          [where i = "VStr (py ''sku-7'')" and name = "py '' Lamp ''" and price = "VInt 0"
             and category = VNone and image_path = "py ''lamp.png''"])
       (simp_all add: py_def strip_def is_space_def)
  from a b show ?thesis by simp
qed

text \<open>
  C7.  The name is checked before the price, and it is checked after stripping: with the
  non-empty name \<^verbatim>\<open>" "\<close> and the price -10 the message is the one of the empty name.
  And the negative \<open>int\<close> \<open>-(2 ** 1024)\<close> makes \<open>float\<close> raise OverflowError.
\<close>

theorem negative_price_counterexample:
  "py '' '' \<noteq> []
   \<and> (\<forall>float_of_str. validate_product_data float_of_str
     [(py ''id'', VInt 1),
      (py ''name'', VStr (py '' '')),
      (py ''price'', VInt (- 10)),
      (py ''category'', VStr (py ''Electronics'')),
      (py ''image_path'', VStr (py ''test.jpg''))]
       = Inr (False, Some (py ''Product name cannot be empty'')))
   \<and> (- (2 ^ 1024) :: int) < 0
   \<and> (\<forall>float_of_str. validate_product_data float_of_str
     [(py ''id'', VInt 1),
      (py ''name'', VStr (py ''Test Product'')),
      (py ''price'', VInt (- (2 ^ 1024))),
      (py ''category'', VStr (py ''Electronics'')),
      (py ''image_path'', VStr (py ''test.jpg''))] = Inl OverflowError)"
  by (simp add: validate_product_data_def validate_eval float_of_int_overflow)

text \<open>
  C7, as amended.  For every product dictionary with all the required fields, a name that
  is a string not empty after stripping whitespace, and a price that is a negative
  \<open>float\<close> (finite or the negative infinity) or a negative \<open>int\<close> above
  \<open>-(2 ** 1024 - 2 ** 970)\<close>, \<open>validate_product_data\<close> returns
  \<open>(False, "Price cannot be negative")\<close>.
\<close>

theorem validate_product_data_negative_price:
  assumes "map_of product (py ''id'') = Some i"
    and "map_of product (py ''name'') = Some (VStr name)"
    and "strip name \<noteq> []"
    and "map_of product (py ''price'') = Some price"
    and "case price of
           VFloat (Fin r) \<Rightarrow> r < 0
         | VFloat NegInf \<Rightarrow> True
         | VInt n \<Rightarrow> n < 0 \<and> - (2 ^ 1024 - 2 ^ 970) < n
         | _ \<Rightarrow> False"
    and "map_of product (py ''category'') = Some category"
    and "map_of product (py ''image_path'') = Some image_path"
  shows "validate_product_data float_of_str product
           = Inr (False, Some (py ''Price cannot be negative''))"
proof -
  have missing: "first_missing product_required_fields product = None"
    using assms by (intro required_product_fields_present)
  have name: "truthy (VStr name) \<and> \<not> str_is_blank (VStr name)"
    using assms(3) by (rule nonblank_string)
  have "\<exists>f. to_float float_of_str price = Inr f \<and> num_less (NFloat f) (NInt 0)"
    using assms(5) float_of_int_neg
    by (fastforce simp: to_float_def num_less_def num_key_def split: pyval.splits pyfloat.splits)
  then obtain f where f: "to_float float_of_str price = Inr f" "num_less (NFloat f) (NInt 0)"
    by blast
  show ?thesis
    using name
    by (simp add: validate_product_data_def missing getitem_def assms(2,4,7) f)
qed

theorem validate_product_data_negative_price_witness:
  "validate_product_data (\<lambda>s. None)
     [(py ''id'', VInt 1),
      (py ''name'', VStr (py ''Test Product'')),
      (py ''price'', VFloat (Fin (- 10))),
      (py ''category'', VStr (py ''Electronics'')),
      (py ''image_path'', VStr (py ''test.jpg''))]
     = Inr (False, Some (py ''Price cannot be negative''))
   \<and> validate_product_data (\<lambda>s. None)
     [(py ''id'', VInt 1),
      (py ''name'', VStr (py ''Test Product'')),
      (py ''price'', VInt (- 3)),
      (py ''category'', VStr (py ''Electronics'')),
      (py ''image_path'', VStr [])]
     = Inr (False, Some (py ''Price cannot be negative''))"
proof -
  have a: "validate_product_data (\<lambda>s. None)
     [(py ''id'', VInt 1),
      (py ''name'', VStr (py ''Test Product'')),
      (py ''price'', VFloat (Fin (- 10))),
      (py ''category'', VStr (py ''Electronics'')),
      (py ''image_path'', VStr (py ''test.jpg''))]
     = Inr (False, Some (py ''Price cannot be negative''))"
    by (rule validate_product_data_negative_price
          [where i = "VInt 1" and name = "py ''Test Product''" and price = "VFloat (Fin (- 10))"
             and category = "VStr (py ''Electronics'')"
             and image_path = "VStr (py ''test.jpg'')"])
       (simp_all add: py_def strip_def is_space_def)
  have b: "validate_product_data (\<lambda>s. None)
     [(py ''id'', VInt 1),
      (py ''name'', VStr (py ''Test Product'')),
      (py ''price'', VInt (- 3)),
      (py ''category'', VStr (py ''Electronics'')),
      (py ''image_path'', VStr [])]
     = Inr (False, Some (py ''Price cannot be negative''))"
    by (rule validate_product_data_negative_price
          [where i = "VInt 1" and name = "py ''Test Product''" and price = "VInt (- 3)"
             and category = "VStr (py ''Electronics'')" and image_path = "VStr []"])
       (simp_all add: py_def strip_def is_space_def)
  from a b show ?thesis by simp
qed

section \<open>Properties of the statistics helper\<close>

lemma int_of_NInt [simp]: "int_of (NInt n) = n"
  by (simp add: int_of_def)














lemma min_from_member: "min_from m xs \<in> set (m # xs)"
  by (induction xs arbitrary: m) (auto split: if_splits)

lemma max_from_member: "max_from m xs \<in> set (m # xs)"
  by (induction xs arbitrary: m) (auto split: if_splits)














section \<open>Properties of the price format\<close>

lemma binade_2999: "binade (2999 / 100) = 4"
  by (rule binade_eqI) (simp_all add: pow2_def)

lemma rounded_2999: "rounded (2999 / 100) = 8441434551552573 / 281474976710656"
proof -
  have "round_half_even (2999 / 100 / pow2 (- 48)) = 8441434551552573"
    by (rule round_half_even_eqI) (simp_all add: pow2_def)
  then show ?thesis
    by (simp add: rounded_def binade_2999) (simp add: pow2_def)
qed

lemma literal_2999: "round_double False (2999 / 100) = Fin (8441434551552573 / 281474976710656)"
  by (simp add: round_double_def rounded_2999) (simp add: pow2_def)

lemma format_2999: "format_2f (Fin (8441434551552573 / 281474976710656)) = py ''29.99''"
proof -
  have "round_half_even (\<bar>8441434551552573 / 281474976710656\<bar> * 100) = 2999"
    by (rule round_half_even_eqI) simp_all
  then show ?thesis
    by (simp add: format_2f_def Let_def dec_digits.simps py_def)
qed

text \<open>
  C10.  The literal \<open>29.99\<close> denotes the double nearest to 2999/100, which is
  \<open>8441434551552573 / 2 ^ 48\<close>; \<open>format_price\<close> of it with the currency symbol
  \<^verbatim>\<open>$\<close> is exactly the string \<^verbatim>\<open>$29.99\<close>.
\<close>

theorem format_price_29_99:
  "round_double False (2999 / 100) = Fin (8441434551552573 / 2 ^ 48)
   \<and> format_price (VFloat (round_double False (2999 / 100))) (py ''$'') = Inr (py ''$29.99'')"
  by (simp add: format_price_def literal_2999 format_2999) (simp add: py_def)

section \<open>Properties of the batch helper\<close>

lemma batches_from_step:
  "0 < k \<Longrightarrow> i < length items \<Longrightarrow>
   batches_from items k i = take k (drop i items) # batches_from items k (i + k)"
  by (subst batches_from.simps) simp

lemma batches_from_stop:
  "length items \<le> i \<Longrightarrow> batches_from items k i = []"
  by (subst batches_from.simps) simp

text \<open>
  C8.  Batching a list of 25 items with batch size 5 gives exactly five groups, each of
  length 5, and batching a list of 10 items with batch size 3 gives exactly four groups,
  the first three of length 3 and the last of length 1; in both cases the groups are the
  consecutive slices of the input, so their concatenation is the input in its order.
\<close>

theorem batch_items_25_by_5_and_10_by_3:
  "(length (xs :: 'a list) = 25 \<longrightarrow>
      batch_items xs 5 =
        Inr [take 5 xs, take 5 (drop 5 xs), take 5 (drop 10 xs),
             take 5 (drop 15 xs), take 5 (drop 20 xs)]
      \<and> (\<exists>bs. batch_items xs 5 = Inr bs \<and> length bs = 5
             \<and> (\<forall>b \<in> set bs. length b = 5) \<and> concat bs = xs))
   \<and> (length (ys :: 'b list) = 10 \<longrightarrow>
      batch_items ys 3 =
        Inr [take 3 ys, take 3 (drop 3 ys), take 3 (drop 6 ys), drop 9 ys]
      \<and> (\<exists>bs. batch_items ys 3 = Inr bs \<and> length bs = 4
             \<and> map length bs = [3, 3, 3, 1] \<and> concat bs = ys))"
proof (intro conjI impI)
  assume len: "length xs = 25"
  have e: "batch_items xs 5 =
        Inr [take 5 xs, take 5 (drop 5 xs), take 5 (drop 10 xs),
             take 5 (drop 15 xs), take 5 (drop 20 xs)]"
    using len by (simp add: batch_items_def batches_from_step batches_from_stop)
  show "batch_items xs 5 =
        Inr [take 5 xs, take 5 (drop 5 xs), take 5 (drop 10 xs),
             take 5 (drop 15 xs), take 5 (drop 20 xs)]"
    by (rule e)
  have c1: "take 5 xs @ take 5 (drop 5 xs) = take 10 xs"
    by (simp add: take_add [of 5 5 xs, symmetric])
  have c2: "take 10 xs @ take 5 (drop 10 xs) = take 15 xs"
    by (simp add: take_add [of 10 5 xs, symmetric])
  have c3: "take 15 xs @ take 5 (drop 15 xs) = take 20 xs"
    by (simp add: take_add [of 15 5 xs, symmetric])
  have c4: "take 20 xs @ take 5 (drop 20 xs) = take 25 xs"
    by (simp add: take_add [of 20 5 xs, symmetric])
  have "take 5 xs @ take 5 (drop 5 xs) @ take 5 (drop 10 xs)
          @ take 5 (drop 15 xs) @ take 5 (drop 20 xs) = take 25 xs"
    using c1 c2 c3 c4 by (metis append.assoc)
  then have cc: "take 5 xs @ take 5 (drop 5 xs) @ take 5 (drop 10 xs)
          @ take 5 (drop 15 xs) @ take 5 (drop 20 xs) = xs"
    using len by simp
  show "\<exists>bs. batch_items xs 5 = Inr bs \<and> length bs = 5
             \<and> (\<forall>b \<in> set bs. length b = 5) \<and> concat bs = xs"
    unfolding e using len cc by simp
next
  assume len: "length ys = 10"
  have e: "batch_items ys 3 =
        Inr [take 3 ys, take 3 (drop 3 ys), take 3 (drop 6 ys), drop 9 ys]"
    using len by (simp add: batch_items_def batches_from_step batches_from_stop)
  show "batch_items ys 3 =
        Inr [take 3 ys, take 3 (drop 3 ys), take 3 (drop 6 ys), drop 9 ys]"
    by (rule e)
  have c1: "take 3 ys @ take 3 (drop 3 ys) = take 6 ys"
    by (simp add: take_add [of 3 3 ys, symmetric])
  have c2: "take 6 ys @ take 3 (drop 6 ys) = take 9 ys"
    by (simp add: take_add [of 6 3 ys, symmetric])
  have "take 3 ys @ take 3 (drop 3 ys) @ take 3 (drop 6 ys) @ drop 9 ys = take 9 ys @ drop 9 ys"
    using c1 c2 by (metis append.assoc)
  then have cc: "take 3 ys @ take 3 (drop 3 ys) @ take 3 (drop 6 ys) @ drop 9 ys = ys"
    by simp
  show "\<exists>bs. batch_items ys 3 = Inr bs \<and> length bs = 4
             \<and> map length bs = [3, 3, 3, 1] \<and> concat bs = ys"
    unfolding e using len cc by simp
qed

theorem batch_items_25_by_5_and_10_by_3_witness:
  "batch_items [1, 2, 3, 4, 5, 6, 7, 8, 9, 10, 11, 12, 13, 14, 15, 16, 17, 18, 19, 20,
                21, 22, 23, 24, 25 :: int] 5 =
     Inr [[1, 2, 3, 4, 5], [6, 7, 8, 9, 10], [11, 12, 13, 14, 15], [16, 17, 18, 19, 20],
          [21, 22, 23, 24, 25]]
   \<and> batch_items [1, 2, 3, 4, 5, 6, 7, 8, 9, 10 :: int] 3 =
     Inr [[1, 2, 3], [4, 5, 6], [7, 8, 9], [10]]"
  using batch_items_25_by_5_and_10_by_3
          [of "[1, 2, 3, 4, 5, 6, 7, 8, 9, 10, 11, 12, 13, 14, 15, 16, 17, 18, 19, 20,
                21, 22, 23, 24, 25 :: int]" "[1, 2, 3, 4, 5, 6, 7, 8, 9, 10 :: int]"]
  by simp

end
